theory Spec2Isabelle
  imports Complex_Main "HOL-Library.Sublist" "HOL-Library.Multiset"
begin

section \<open>Shared data: responses, transport outcomes, errors\<close>

text \<open>
  The scanners read five attributes of a response object: \<open>status_code\<close>,
  \<open>content\<close>, \<open>text\<close> (here \<open>body_text\<close>), \<open>headers\<close> and \<open>elapsed\<close>. The class that produces
  the object (\<open>utils.http_client.HTTPClient\<close>) is an external collaborator; a call of its
  \<open>get\<close> either raises, or returns a value the callers test with \<open>if response\<close>.
  The falsy return is \<open>None\<close>; a returned response object is truthy.
  Durations are seconds, taken as exact real numbers.
\<close>

record response =
  status_code :: int
  content :: string
  body_text :: string
  headers :: "(string \<times> string) list"
  elapsed :: real

datatype outcome = Raises | Returns "response option"

datatype py_error = ValueError | ZeroDivisionError

datatype 'a future = Returned 'a | Raised

section \<open>Python strings and urllib.parse\<close>

text \<open>
  \<open>s.split(c)\<close>, \<open>sep.join(xs)\<close>, \<open>s.rstrip(c)\<close> and the two halves of
  \<open>s[:i], s[i+1:]\<close> with \<open>i = s.find(c)\<close> (which is also \<open>s.split(c, 1)\<close>
  when \<open>c\<close> occurs in \<open>s\<close>).
\<close>

fun split :: "char \<Rightarrow> string \<Rightarrow> string list" where
  "split c [] = [[]]"
| "split c (x # xs) =
     (if x = c then [] # split c xs
      else (case split c xs of [] \<Rightarrow> [[x]] | y # ys \<Rightarrow> (x # y) # ys))"

fun join :: "string \<Rightarrow> string list \<Rightarrow> string" where
  "join sep [] = []"
| "join sep [x] = x"
| "join sep (x # y # ys) = x @ sep @ join sep (y # ys)"

definition rstrip :: "char \<Rightarrow> string \<Rightarrow> string" where
  "rstrip c s = rev (dropWhile (\<lambda>x. x = c) (rev s))"

definition split_at_first :: "char \<Rightarrow> string \<Rightarrow> string \<times> string" where
  "split_at_first c s = (takeWhile (\<lambda>x. x \<noteq> c) s, drop 1 (dropWhile (\<lambda>x. x \<noteq> c) s))"

text \<open>
  The tables of urllib.parse (CPython 3.11) that \<open>urljoin\<close> consults.
\<close>

definition uses_relative :: "string list" where
  "uses_relative = ['''', ''ftp'', ''http'', ''gopher'', ''nntp'', ''imap'',
     ''wais'', ''file'', ''https'', ''shttp'', ''mms'',
     ''prospero'', ''rtsp'', ''rtspu'', ''sftp'',
     ''svn'', ''svn+ssh'', ''ws'', ''wss'']"

definition uses_netloc :: "string list" where
  "uses_netloc = ['''', ''ftp'', ''http'', ''gopher'', ''nntp'', ''telnet'',
     ''imap'', ''wais'', ''file'', ''mms'', ''https'', ''shttp'',
     ''snews'', ''prospero'', ''rtsp'', ''rtspu'', ''rsync'',
     ''svn'', ''svn+ssh'', ''sftp'', ''nfs'', ''git'', ''git+ssh'',
     ''ws'', ''wss'']"

definition uses_params :: "string list" where
  "uses_params = ['''', ''ftp'', ''hdl'', ''prospero'', ''http'', ''imap'',
     ''https'', ''shttp'', ''rtsp'', ''rtspu'', ''sip'', ''sips'',
     ''mms'', ''sftp'', ''tel'']"

definition ascii_lowercase :: string where
  "ascii_lowercase = ''abcdefghijklmnopqrstuvwxyz''"

definition ascii_uppercase :: string where
  "ascii_uppercase = ''ABCDEFGHIJKLMNOPQRSTUVWXYZ''"

definition scheme_chars :: string where
  "scheme_chars = ascii_lowercase @ ascii_uppercase @ ''0123456789+-.''"

definition lower_chr :: "char \<Rightarrow> char" where
  "lower_chr c = (case map_of (zip ascii_uppercase ascii_lowercase) c of Some l \<Rightarrow> l | None \<Rightarrow> c)"

definition C0_CONTROL_OR_SPACE :: string where
  "C0_CONTROL_OR_SPACE = map char_of [0 ..< (33::nat)]"

definition UNSAFE_URL_BYTES_TO_REMOVE :: string where
  "UNSAFE_URL_BYTES_TO_REMOVE = [char_of (9::nat), char_of (13::nat), char_of (10::nat)]"

definition strip_set :: "string \<Rightarrow> string \<Rightarrow> string" where
  "strip_set cs s = rev (dropWhile (\<lambda>x. x \<in> set cs) (rev (dropWhile (\<lambda>x. x \<in> set cs) s)))"



text \<open>
  \<open>_splitnetloc(url, 2)\<close>: the network location runs from index 2 to the first of
  \<open>/\<close>, \<open>?\<close>, \<open>#\<close>.
\<close>

definition splitnetloc :: "string \<Rightarrow> string \<times> string" where
  "splitnetloc url =
     (takeWhile (\<lambda>x. x \<notin> set ''/?#'') (drop 2 url),
      dropWhile (\<lambda>x. x \<notin> set ''/?#'') (drop 2 url))"

text \<open>
  \<open>urlsplit(url, scheme)\<close>. The model follows the source step by step: strip leading
  control characters and spaces, delete tab, carriage return and line feed, take the
  scheme when the text before the first colon is non-empty, starts with an ASCII
  letter and consists of scheme characters, then the network location after
  \<open>//\<close>, the fragment after \<open>#\<close> and the query after \<open>?\<close>. Left out: the checks of
  the network location that only raise \<open>ValueError\<close> (unbalanced or invalid
  bracketed host, NFKC normalisation of a non-ASCII host).
\<close>

definition has_scheme :: "string \<Rightarrow> bool" where
  "has_scheme url =
     (CHR '':'' \<in> set url \<and> takeWhile (\<lambda>x. x \<noteq> CHR '':'') url \<noteq> []
      \<and> hd url \<in> set (ascii_lowercase @ ascii_uppercase)
      \<and> list_all (\<lambda>c. c \<in> set scheme_chars) (takeWhile (\<lambda>x. x \<noteq> CHR '':'') url))"

definition urlsplit :: "string \<Rightarrow> string \<Rightarrow> string \<times> string \<times> string \<times> string \<times> string" where
  "urlsplit url0 scheme0 =
     (let url1 = dropWhile (\<lambda>x. x \<in> set C0_CONTROL_OR_SPACE) url0;
          scheme1 = strip_set C0_CONTROL_OR_SPACE scheme0;
          url2 = filter (\<lambda>x. x \<notin> set UNSAFE_URL_BYTES_TO_REMOVE) url1;
          scheme2 = filter (\<lambda>x. x \<notin> set UNSAFE_URL_BYTES_TO_REMOVE) scheme1;
          (scheme, url3) =
             (if has_scheme url2
              then (map lower_chr (fst (split_at_first CHR '':'' url2)), snd (split_at_first CHR '':'' url2))
              else (scheme2, url2));
          (netloc, url4) = (if take 2 url3 = ''//'' then splitnetloc url3 else ('''', url3));
          (url5, fragment) = (if CHR ''#'' \<in> set url4 then split_at_first CHR ''#'' url4 else (url4, ''''));
          (url6, query) = (if CHR ''?'' \<in> set url5 then split_at_first CHR ''?'' url5 else (url5, ''''))
      in (scheme, netloc, url6, query, fragment))"

text \<open>
  \<open>_splitparams\<close>: the parameters start at the first \<open>;\<close> at or after the last
  \<open>/\<close> of the path (at the first \<open>;\<close> when the path has no \<open>/\<close>).
\<close>

definition splitparams :: "string \<Rightarrow> string \<times> string" where
  "splitparams url =
     (if CHR ''/'' \<in> set url then
        (let upto_slash = rev (dropWhile (\<lambda>x. x \<noteq> CHR ''/'') (rev url));
             after_slash = rev (takeWhile (\<lambda>x. x \<noteq> CHR ''/'') (rev url))
         in if CHR '';'' \<notin> set after_slash then (url, '''')
            else (upto_slash @ fst (split_at_first CHR '';'' after_slash),
                  snd (split_at_first CHR '';'' after_slash)))
      else split_at_first CHR '';'' url)"

record parse_result =
  scheme :: string
  netloc :: string
  path :: string
  params :: string
  query :: string
  fragment :: string

definition urlparse :: "string \<Rightarrow> string \<Rightarrow> parse_result" where
  "urlparse url scheme0 =
     (case urlsplit url scheme0 of (sch, nl, u, q, f) \<Rightarrow>
        (if sch \<in> set uses_params \<and> CHR '';'' \<in> set u
         then \<lparr> scheme = sch, netloc = nl, path = fst (splitparams u),
                params = snd (splitparams u), query = q, fragment = f \<rparr>
         else \<lparr> scheme = sch, netloc = nl, path = u, params = '''', query = q, fragment = f \<rparr>))"

definition urlunsplit :: "string \<Rightarrow> string \<Rightarrow> string \<Rightarrow> string \<Rightarrow> string \<Rightarrow> string" where
  "urlunsplit sch nl url0 q f =
     (let url1 = (if nl \<noteq> [] \<or> (sch \<noteq> [] \<and> sch \<in> set uses_netloc) \<or> take 2 url0 = ''//''
                  then ''//'' @ nl @ (if url0 \<noteq> [] \<and> take 1 url0 \<noteq> ''/'' then ''/'' @ url0 else url0)
                  else url0);
          url2 = (if sch \<noteq> [] then sch @ '':'' @ url1 else url1);
          url3 = (if q \<noteq> [] then url2 @ ''?'' @ q else url2);
          url4 = (if f \<noteq> [] then url3 @ ''#'' @ f else url3)
      in url4)"

definition urlunparse :: "parse_result \<Rightarrow> string" where
  "urlunparse p =
     urlunsplit (scheme p) (netloc p)
       (if params p \<noteq> [] then path p @ '';'' @ params p else path p) (query p) (fragment p)"

text \<open>
  The path merge of \<open>urljoin\<close>: \<open>segments[1:-1] = filter(None, segments[1:-1])\<close>
  drops the empty segments strictly between the first and the last; the loop pops on
  \<open>..\<close> (a pop from the empty list is ignored), skips \<open>.\<close> and appends anything else.
\<close>

definition filter_inner :: "string list \<Rightarrow> string list" where
  "filter_inner segments =
     (if length segments < 2 then segments
      else hd segments # filter (\<lambda>s. s \<noteq> []) (butlast (tl segments)) @ [last segments])"

fun resolve_segments :: "string list \<Rightarrow> string list \<Rightarrow> string list" where
  "resolve_segments resolved_path [] = resolved_path"
| "resolve_segments resolved_path (seg # segs) =
     (if seg = ''..'' then resolve_segments (butlast resolved_path) segs
      else if seg = ''.'' then resolve_segments resolved_path segs
      else resolve_segments (resolved_path @ [seg]) segs)"

definition urljoin :: "string \<Rightarrow> string \<Rightarrow> string" where
  "urljoin base url =
     (if base = [] then url
      else if url = [] then base
      else
        let b = urlparse base '''';
            u = urlparse url (scheme b)
        in if scheme u \<noteq> scheme b \<or> scheme u \<notin> set uses_relative then url
           else if scheme u \<in> set uses_netloc \<and> netloc u \<noteq> [] then urlunparse u
           else
             let nl = (if scheme u \<in> set uses_netloc then netloc b else netloc u)
             in if path u = [] \<and> params u = [] then
                  urlunparse \<lparr> scheme = scheme u, netloc = nl, path = path b, params = params b,
                               query = (if query u = [] then query b else query u),
                               fragment = fragment u \<rparr>
                else
                  let base_parts = (if last (split CHR ''/'' (path b)) \<noteq> []
                                    then butlast (split CHR ''/'' (path b))
                                    else split CHR ''/'' (path b));
                      segments = (if take 1 (path u) = ''/'' then split CHR ''/'' (path u)
                                  else filter_inner (base_parts @ split CHR ''/'' (path u)));
                      resolved0 = resolve_segments [] segments;
                      resolved_path = (if last segments \<in> set [''.'', ''..'']
                                       then resolved0 @ [[]] else resolved0);
                      joined = join ''/'' resolved_path
                  in urlunparse \<lparr> scheme = scheme u, netloc = nl,
                                  path = (if joined = [] then ''/'' else joined),
                                  params = params u, query = query u, fragment = fragment u \<rparr>)"

section \<open>directory\_scanner.py\<close>

subsection \<open>Result dictionary, statistics, scanner object\<close>

record probe_result =
  res_url :: string
  res_status_code :: int
  res_content_length :: nat
  res_headers :: "(string \<times> string) list"
  res_title :: string
  res_response_time :: real

record scan_stats =
  total :: nat
  found :: nat
  errors :: nat
  start_time :: real
  end_time :: real

subsection \<open>Response classification\<close>

text \<open>\<open>_is_interesting_response\<close>: four tests in the order of the source.\<close>

definition is_interesting_response :: "response \<Rightarrow> bool" where
  "is_interesting_response response =
     (if status_code response \<in> set [200, 201, 204] then True
      else if status_code response \<in> set [301, 302, 303, 307, 308] then True
      else if status_code response \<in> set [401, 403] then True
      else if status_code response \<ge> 500 then True
      else False)"

text \<open>
  \<open>_check_directory\<close>: one request, run inside a worker. Every exception is caught
  and logged, so the function always returns: \<open>None\<close> when the request raised, when
  the response is falsy, and when the response is not interesting. The title is
  found by a regular-expression search (\<open>_extract_title\<close>), passed in as
  \<open>extract_title\<close>. The client is asked with the position of the task in the
  submission order and the URL.
\<close>

definition check_directory ::
  "(string \<Rightarrow> string) \<Rightarrow> (nat \<Rightarrow> string \<Rightarrow> outcome) \<Rightarrow> nat \<Rightarrow> string \<Rightarrow> probe_result option" where
  "check_directory extract_title client i url =
     (case client i url of
        Raises \<Rightarrow> None
      | Returns None \<Rightarrow> None
      | Returns (Some response) \<Rightarrow>
          (if is_interesting_response response then
             Some \<lparr> res_url = url,
                    res_status_code = status_code response,
                    res_content_length = length (content response),
                    res_headers = headers response,
                    res_title = extract_title (body_text response),
                    res_response_time = elapsed response \<rparr>
           else None))"

subsection \<open>The scanner object and one scan\<close>

text \<open>
  The attributes of a \<open>DirectoryScanner\<close>. \<open>requested\<close> is a ghost field: the
  URLs handed to the worker pool so far, each of which costs exactly one call of the
  client.
\<close>

record directory_scanner =
  base_url :: string
  wordlist :: "string list"
  threads :: int
  stats :: scan_stats
  results :: "probe_result list"
  requested :: "string list"

text \<open>\<open>__init__\<close>: trailing slashes are stripped, the thread count is capped.\<close>

definition DirectoryScanner :: "string \<Rightarrow> string list \<Rightarrow> int \<Rightarrow> directory_scanner" where
  "DirectoryScanner base_url0 wordlist0 threads0 =
     \<lparr> base_url = rstrip CHR ''/'' base_url0,
       wordlist = wordlist0,
       threads = min threads0 200,
       stats = \<lparr> total = 0, found = 0, errors = 0, start_time = 0, end_time = 0 \<rparr>,
       results = [],
       requested = [] \<rparr>"

text \<open>\<open>_build_url\<close>: one leading slash is removed, then \<open>urljoin\<close>.\<close>

definition build_url :: "directory_scanner \<Rightarrow> string \<Rightarrow> string" where
  "build_url self path0 =
     (let path1 = (if take 1 path0 = ''/'' then drop 1 path0 else path0)
      in urljoin (base_url self @ ''/'') path1)"

text \<open>
  What \<open>scan\<close> takes from outside: the title extractor, the client, the order in
  which \<open>as_completed\<close> hands back the futures, and the two readings of the clock.
\<close>

record env =
  extract_title :: "string \<Rightarrow> string"
  client :: "nat \<Rightarrow> string \<Rightarrow> outcome"
  as_completed :: "(string \<times> probe_result option future) list \<Rightarrow> (string \<times> probe_result option future) list"
  time_at_start :: real
  time_at_end :: real

text \<open>
  The progress bar (\<open>utils/progress_bar.py\<close>): \<open>ProgressBar(total)\<close> stores the
  total, and every \<open>update\<close> and the final \<open>close\<close> call \<open>_print\<close>, which divides
  the current count by the total: a \<open>ZeroDivisionError\<close> for a bar of total 0. The
  rate it prints divides by the time since the bar was created, taken to be
  non-zero; what it writes to the terminal is left out.
\<close>

definition progress_print :: "nat \<Rightarrow> py_error option" where
  "progress_print bar_total = (if bar_total = 0 then Some ZeroDivisionError else None)"

text \<open>
  The loop over completed futures (lines 71 to 92). \<open>take_result\<close> is the
  \<open>try\<close> statement: append and count a result that is not \<open>None\<close>, count an
  exception of the future as an error. Then the progress bar is updated, and the
  running count of futures is stored as the total. An exception of the progress bar
  ends the loop and leaves the scanner as it is at that point. Printing the finding
  is left out.
\<close>

definition take_result ::
  "directory_scanner \<Rightarrow> string \<times> probe_result option future \<Rightarrow> directory_scanner" where
  "take_result self fu =
     (case snd fu of
        Returned None \<Rightarrow> self
      | Returned (Some result) \<Rightarrow>
          self \<lparr> results := results self @ [result],
                 stats := (stats self) \<lparr> found := found (stats self) + 1 \<rparr> \<rparr>
      | Raised \<Rightarrow>
          self \<lparr> stats := (stats self) \<lparr> errors := errors (stats self) + 1 \<rparr> \<rparr>)"

fun process_completed ::
  "nat \<Rightarrow> directory_scanner \<Rightarrow> nat \<Rightarrow> (string \<times> probe_result option future) list
     \<Rightarrow> py_error option \<times> directory_scanner" where
  "process_completed bar_total self completed0 [] = (None, self)"
| "process_completed bar_total self completed0 (fu # rest) =
     (let completed = completed0 + 1;
          self1 = take_result self fu
      in case progress_print bar_total of
           Some e \<Rightarrow> (Some e, self1)
         | None \<Rightarrow>
             process_completed bar_total
               (self1 \<lparr> stats := (stats self1) \<lparr> total := completed \<rparr> \<rparr>) completed rest)"

text \<open>
  The worker pool: \<open>ThreadPoolExecutor(max_workers)\<close> raises \<open>ValueError\<close> for
  \<open>max_workers \<le> 0\<close>. Each submitted task runs \<open>_check_directory\<close>, which returns
  in every case, so every future holds a return value.
\<close>

definition ThreadPoolExecutor :: "int \<Rightarrow> py_error + int" where
  "ThreadPoolExecutor max_workers = (if max_workers \<le> 0 then Inl ValueError else Inr max_workers)"

definition submit_all :: "env \<Rightarrow> string list \<Rightarrow> (string \<times> probe_result option future) list" where
  "submit_all w urls =
     map (\<lambda>(i, url). (url, Returned (check_directory (extract_title w) (client w) i url)))
         (enumerate 0 urls)"

text \<open>
  \<open>scan\<close>: the start time, the progress bar over the word list, the pool, one task
  per word, the loop over the completed futures, the close of the progress bar, the
  end time. The result is the returned list or the exception that ended the scan,
  and the scanner as the scan left it.
\<close>

definition scan :: "env \<Rightarrow> directory_scanner \<Rightarrow> (py_error + probe_result list) \<times> directory_scanner" where
  "scan w self0 =
     (let self1 = self0 \<lparr> stats := (stats self0) \<lparr> start_time := time_at_start w \<rparr> \<rparr>;
          bar_total = length (wordlist self1)
      in case ThreadPoolExecutor (threads self1) of
           Inl e \<Rightarrow> (Inl e, self1)
         | Inr executor \<Rightarrow>
             let urls = map (build_url self1) (wordlist self1);
                 future_to_url = submit_all w urls;
                 self2 = self1 \<lparr> requested := requested self1 @ urls \<rparr>;
                 run = process_completed bar_total self2 0 (as_completed w future_to_url);
                 self3 = snd run
             in case fst run of
                  Some e \<Rightarrow> (Inl e, self3)
                | None \<Rightarrow>
                    (case progress_print bar_total of
                       Some e \<Rightarrow> (Inl e, self3)
                     | None \<Rightarrow>
                         let self4 = self3 \<lparr> stats := (stats self3) \<lparr> end_time := time_at_end w \<rparr> \<rparr>
                         in (Inr (results self4), self4)))"

section \<open>sqli\_scanner.py\<close>

subsection \<open>Findings\<close>

datatype confidence = High | Medium | Low

datatype strategy = Baseline | ErrorBased | TimeBased | BooleanBased

text \<open>
  The keys of a finding that depend on the strategy. The three durations of a
  time-based finding are kept as numbers (the source formats them with two decimals).
\<close>

datatype detail =
    ErrorDetail (database: string) (payload: string) (evidence: string)
  | TimeDetail (payload: string) (baseline_time: real) (response_time: real) (delay: real)
  | BooleanDetail (true_payload: string) (false_payload: string)
      (true_length: nat) (false_length: nat) (difference: int)

record finding =
  vuln_type :: string
  subtype :: strategy
  vuln_url :: string
  parameter :: string
  confidence :: confidence
  detail :: detail

subsection \<open>The scanner's surroundings\<close>

text \<open>
  A request in the log carries the strategy and the parameter it was issued for (the
  baseline request has no parameter) and its URL. The client answers a request with an
  outcome and the wall-clock seconds the call took; it may depend on the URLs
  requested before. The regular-expression table lookup \<open>_detect_sql_error\<close>, the
  parameter names of the query string (the keys of \<open>parse_qs(urlparse(url).query)\<close>,
  none for an empty query) and the construction of a test URL from the URL, a
  parameter and a payload (\<open>urlencode\<close> and \<open>geturl\<close>) are taken as given, as are the
  two payload lists.
\<close>

type_synonym request = "strategy \<times> string \<times> string"

record sqli_env =
  get :: "string list \<Rightarrow> string \<Rightarrow> outcome \<times> real"
  detect_sql_error :: "string \<Rightarrow> (string \<times> string) option"
  query_params :: "string \<Rightarrow> string list"
  build_test_url :: "string \<Rightarrow> string \<Rightarrow> string \<Rightarrow> string"
  error_payloads :: "string list"
  time_payloads :: "string list"

definition send ::
  "sqli_env \<Rightarrow> request list \<Rightarrow> strategy \<Rightarrow> string \<Rightarrow> string \<Rightarrow> (outcome \<times> real) \<times> request list" where
  "send w sent s p u = (get w (map (\<lambda>r. snd (snd r)) sent) u, sent @ [(s, p, u)])"

subsection \<open>Confidence\<close>



subsection \<open>Error-based strategy\<close>




subsection \<open>Time-based strategy\<close>





subsection \<open>Boolean-based strategy\<close>

definition responses_differ_significantly :: "response \<Rightarrow> response \<Rightarrow> response \<Rightarrow> bool" where
  "responses_differ_significantly resp1 resp2 baseline =
     (let len1 = int (length (body_text resp1));
          len2 = int (length (body_text resp2));
          baseline_len = int (length (body_text baseline))
      in if \<bar>len1 - len2\<bar> > 100 then True
         else
           let len_diff1 = \<bar>len1 - baseline_len\<bar>;
               len_diff2 = \<bar>len2 - baseline_len\<bar>
           in if (len_diff1 < 50 \<and> len_diff2 > 200) \<or> (len_diff2 < 50 \<and> len_diff1 > 200) then True
              else if status_code resp1 \<noteq> status_code resp2 then True
              else False)"

definition true_payload_str :: string where
  "true_payload_str = [CHR 0x27] @ '' AND '' @ [CHR 0x27] @ ''1'' @ [CHR 0x27] @ ''=''
                      @ [CHR 0x27] @ ''1'' @ [CHR 0x27] @ '' -- ''"

definition false_payload_str :: string where
  "false_payload_str = [CHR 0x27] @ '' AND '' @ [CHR 0x27] @ ''1'' @ [CHR 0x27] @ ''=''
                       @ [CHR 0x27] @ ''2'' @ [CHR 0x27] @ '' -- ''"

text \<open>
  The body of the loop over the parameters: the request with the true condition, then
  (unless the first raised or came back falsy) the request with the false condition,
  then the comparison. The confidence of a finding is the constant \<open>High\<close>.
\<close>

definition boolean_param ::
  "sqli_env \<Rightarrow> string \<Rightarrow> response \<Rightarrow> string \<Rightarrow> request list \<Rightarrow> finding list \<times> request list" where
  "boolean_param w url baseline param_name sent =
     (let true_url = build_test_url w url param_name true_payload_str;
          false_url = build_test_url w url param_name false_payload_str;
          (reply1, sent1) = send w sent BooleanBased param_name true_url
      in case fst reply1 of
           Returns (Some true_response) \<Rightarrow>
             (let (reply2, sent2) = send w sent1 BooleanBased param_name false_url
              in case fst reply2 of
                   Returns (Some false_response) \<Rightarrow>
                     (if responses_differ_significantly true_response false_response baseline then
                        ([\<lparr> vuln_type = ''SQL Injection'', subtype = BooleanBased, vuln_url = true_url,
                            parameter = param_name,
                            confidence = High,
                            detail = BooleanDetail true_payload_str false_payload_str
                                       (length (body_text true_response))
                                       (length (body_text false_response))
                                       \<bar>int (length (body_text true_response))
                                          - int (length (body_text false_response))\<bar> \<rparr>], sent2)
                      else ([], sent2))
                 | _ \<Rightarrow> ([], sent2))
         | _ \<Rightarrow> ([], sent1))"

fun boolean_params_loop ::
  "sqli_env \<Rightarrow> string \<Rightarrow> response \<Rightarrow> string list \<Rightarrow> request list \<Rightarrow> finding list \<times> request list" where
  "boolean_params_loop w url baseline [] sent = ([], sent)"
| "boolean_params_loop w url baseline (param_name # names) sent =
     (let (found1, sent1) = boolean_param w url baseline param_name sent;
          (found2, sent2) = boolean_params_loop w url baseline names sent1
      in (found1 @ found2, sent2))"

definition test_boolean_based ::
  "sqli_env \<Rightarrow> string \<Rightarrow> response \<Rightarrow> request list \<Rightarrow> finding list \<times> request list" where
  "test_boolean_based w url baseline sent =
     boolean_params_loop w url baseline (query_params w url) sent"

subsection \<open>The coordinator\<close>


section \<open>xss\_scanner.py\<close>




section \<open>Auxiliary definitions for the statements\<close>

text \<open>
  What the collection loop does to a sequence of futures, read off the sequence: the
  results it appends and the number of futures that raise.
\<close>

fun retained :: "(string \<times> probe_result option future) list \<Rightarrow> probe_result list" where
  "retained [] = []"
| "retained ((u, Returned (Some r)) # fs) = r # retained fs"
| "retained (f # fs) = retained fs"

fun raised :: "(string \<times> probe_result option future) list \<Rightarrow> nat" where
  "raised [] = 0"
| "raised ((u, Raised) # fs) = Suc (raised fs)"
| "raised (f # fs) = raised fs"

text \<open>
  A stubbed environment for concrete runs: no title, futures complete in the reverse
  of the submission order, the clock reads 0 and 1.
\<close>

definition stub_env :: "(nat \<Rightarrow> string \<Rightarrow> outcome) \<Rightarrow> env" where
  "stub_env c = \<lparr> extract_title = (\<lambda>html. []), client = c, as_completed = rev,
                  time_at_start = 0, time_at_end = 1 \<rparr>"

text \<open>
  A stubbed response of a given length and a stubbed SQL injection environment for
  concrete runs: one parameter \<open>id\<close>, one payload per list, a delay of six seconds
  on the time payload, and bodies of length 1005 and 1300 on the two boolean payloads
  against 1000 elsewhere.
\<close>

definition stub_response :: "nat \<Rightarrow> response" where
  "stub_response n = \<lparr> status_code = 200, content = replicate n CHR ''a'',
                       body_text = replicate n CHR ''a'', headers = [], elapsed = 1 / 10 \<rparr>"

definition stub_sqli_env :: "(string \<Rightarrow> (string \<times> string) option) \<Rightarrow> sqli_env" where
  "stub_sqli_env d =
     \<lparr> get = (\<lambda>history u.
               (Returns (Some (stub_response
                  (if u = ''http://t/?id='' @ true_payload_str then 1005
                   else if u = ''http://t/?id='' @ false_payload_str then 1300 else 1000))),
                if u = ''http://t/?id=SLEEP(6)'' then 6 else 1 / 10)),
       detect_sql_error = d,
       query_params = (\<lambda>u. [''id'']),
       build_test_url = (\<lambda>u p pl. ''http://t/?'' @ p @ ''='' @ pl),
       error_payloads = [[CHR 0x27]],
       time_payloads = [''SLEEP(6)''] \<rparr>"






section \<open>Properties\<close>

subsection \<open>Classification rule\<close>


subsection \<open>The collection loop\<close>

lemma process_completed_ok: "0 < n \<Longrightarrow> fst (process_completed n self k fs) = None"
  by (induction fs arbitrary: self k) (simp_all add: progress_print_def Let_def)

lemma take_result_results:
  "results (take_result self f) = results self @ retained [f]"
proof -
  obtain u x where f: "f = (u, x)" by (cases f)
  show ?thesis
  proof (cases x)
    case (Returned o1)
    then show ?thesis using f by (cases o1) (simp_all add: take_result_def)
  next
    case Raised
    then show ?thesis using f by (simp add: take_result_def)
  qed
qed

lemma take_result_found:
  "found (stats (take_result self f)) = found (stats self) + length (retained [f])"
proof -
  obtain u x where f: "f = (u, x)" by (cases f)
  show ?thesis
  proof (cases x)
    case (Returned o1)
    then show ?thesis using f by (cases o1) (simp_all add: take_result_def)
  next
    case Raised
    then show ?thesis using f by (simp add: take_result_def)
  qed
qed

lemma take_result_errors:
  "errors (stats (take_result self f)) = errors (stats self) + raised [f]"
proof -
  obtain u x where f: "f = (u, x)" by (cases f)
  show ?thesis
  proof (cases x)
    case (Returned o1)
    then show ?thesis using f by (cases o1) (simp_all add: take_result_def)
  next
    case Raised
    then show ?thesis using f by (simp add: take_result_def)
  qed
qed


lemma retained_Cons: "retained (f # fs) = retained [f] @ retained fs"
proof -
  obtain u x where f: "f = (u, x)" by (cases f)
  show ?thesis
  proof (cases x)
    case (Returned o1)
    then show ?thesis using f by (cases o1) simp_all
  next
    case Raised
    then show ?thesis using f by simp
  qed
qed

lemma raised_Cons: "raised (f # fs) = raised [f] + raised fs"
proof -
  obtain u x where f: "f = (u, x)" by (cases f)
  show ?thesis
  proof (cases x)
    case (Returned o1)
    then show ?thesis using f by simp
  next
    case Raised
    then show ?thesis using f by simp
  qed
qed

lemma process_completed_results:
  "0 < n \<Longrightarrow> results (snd (process_completed n self k fs)) = results self @ retained fs"
proof (induction fs arbitrary: self k)
  case Nil
  then show ?case by simp
next
  case (Cons f fs)
  then show ?case
    using retained_Cons[of f fs]
    by (simp add: progress_print_def Let_def take_result_results del: retained.simps)
qed

lemma process_completed_found:
  "0 < n \<Longrightarrow> found (stats (snd (process_completed n self k fs)))
                = found (stats self) + length (retained fs)"
proof (induction fs arbitrary: self k)
  case Nil
  then show ?case by simp
next
  case (Cons f fs)
  then show ?case
    using retained_Cons[of f fs]
    by (simp add: progress_print_def Let_def take_result_found del: retained.simps)
qed

lemma process_completed_errors:
  "0 < n \<Longrightarrow> errors (stats (snd (process_completed n self k fs)))
                = errors (stats self) + raised fs"
proof (induction fs arbitrary: self k)
  case Nil
  then show ?case by simp
next
  case (Cons f fs)
  then show ?case
    using raised_Cons[of f fs]
    by (simp add: progress_print_def Let_def take_result_errors del: raised.simps)
qed

lemma process_completed_total:
  "0 < n \<Longrightarrow> fs \<noteq> [] \<Longrightarrow>
   total (stats (snd (process_completed n self k fs))) = k + length fs"
proof (induction fs arbitrary: self k)
  case Nil
  then show ?case by simp
next
  case (Cons f fs)
  show ?case
  proof (cases fs)
    case Nil
    then show ?thesis using Cons.prems by (simp add: progress_print_def Let_def)
  next
    case (Cons g gs)
    then have "fs \<noteq> []" by simp
    then show ?thesis
      using Cons.IH[OF Cons.prems(1)] Cons.prems(1) by (simp add: progress_print_def Let_def)
  qed
qed


lemma process_completed_invariant:
  "found (stats self) = length (results self) \<Longrightarrow>
   found (stats (snd (process_completed n self k fs)))
     = length (results (snd (process_completed n self k fs)))"
proof (induction fs arbitrary: self k)
  case Nil
  then show ?case by simp
next
  case (Cons f fs)
  have step: "found (stats (take_result self f)) = length (results (take_result self f))"
    using Cons.prems by (simp add: take_result_found take_result_results)
  show ?case
  proof (cases "n = 0")
    case True
    then show ?thesis using step by (simp add: progress_print_def Let_def)
  next
    case False
    then show ?thesis
      using Cons.IH[of "(take_result self f) \<lparr> stats := (stats (take_result self f)) \<lparr> total := Suc k \<rparr> \<rparr>" "Suc k"]
        step
      by (simp add: progress_print_def Let_def)
  qed
qed

lemma raised_submit_all: "raised (submit_all w urls) = 0"
proof -
  have "raised (map (\<lambda>(i, url). (url, Returned (g i url))) xs) = 0"
    for g and xs :: "(nat \<times> string) list"
    by (induction xs) auto
  then show ?thesis by (simp add: submit_all_def)
qed

lemma raised_count: "raised fs = size (filter_mset (\<lambda>f. snd f = Raised) (mset fs))"
  by (induction fs rule: raised.induct) auto

lemma length_submit_all: "length (submit_all w urls) = length urls"
  by (simp add: submit_all_def)

subsection \<open>One scan\<close>

lemma build_url_stats [simp]: "build_url (self \<lparr> stats := s \<rparr>) = build_url self"
  by (rule ext) (simp add: build_url_def)

lemma scan_refused:
  "threads self \<le> 0 \<Longrightarrow>
   scan w self = (Inl ValueError, self \<lparr> stats := (stats self) \<lparr> start_time := time_at_start w \<rparr> \<rparr>)"
  by (simp add: scan_def ThreadPoolExecutor_def Let_def)

lemma scan_empty:
  "0 < threads self \<Longrightarrow> wordlist self = [] \<Longrightarrow> fst (scan w self) = Inl ZeroDivisionError"
  by (cases "as_completed w (submit_all w [])")
     (simp_all add: scan_def ThreadPoolExecutor_def Let_def progress_print_def)

lemma scan_completes:
  assumes "0 < threads self" "wordlist self \<noteq> []"
  shows "scan w self =
     (Inr (results (snd (process_completed (length (wordlist self))
              (self \<lparr> stats := (stats self) \<lparr> start_time := time_at_start w \<rparr>,
                      requested := requested self @ map (build_url self) (wordlist self) \<rparr>) 0
              (as_completed w (submit_all w (map (build_url self) (wordlist self))))))),
      (snd (process_completed (length (wordlist self))
              (self \<lparr> stats := (stats self) \<lparr> start_time := time_at_start w \<rparr>,
                      requested := requested self @ map (build_url self) (wordlist self) \<rparr>) 0
              (as_completed w (submit_all w (map (build_url self) (wordlist self))))))
        \<lparr> stats := (stats (snd (process_completed (length (wordlist self))
              (self \<lparr> stats := (stats self) \<lparr> start_time := time_at_start w \<rparr>,
                      requested := requested self @ map (build_url self) (wordlist self) \<rparr>) 0
              (as_completed w (submit_all w (map (build_url self) (wordlist self)))))))
                 \<lparr> end_time := time_at_end w \<rparr> \<rparr>)"
proof -
  have n: "0 < length (wordlist self)" using assms(2) by simp
  show ?thesis
    using assms(1) n process_completed_ok[OF n]
    by (simp add: scan_def ThreadPoolExecutor_def Let_def progress_print_def)
qed

lemma scan_Inr_iff:
  "(\<exists>rs. fst (scan w self) = Inr rs) \<longleftrightarrow> 0 < threads self \<and> wordlist self \<noteq> []"
proof (cases "0 < threads self")
  case False
  then show ?thesis by (simp add: scan_refused)
next
  case True
  show ?thesis
  proof (cases "wordlist self = []")
    case e: True
    then show ?thesis using True scan_empty[OF True e, of w] by simp
  next
    case False
    then show ?thesis using True scan_completes[OF True False, of w] by simp
  qed
qed

lemma scan_invariant:
  assumes "found (stats self) = length (results self)"
  shows "found (stats (snd (scan w self))) = length (results (snd (scan w self)))"
proof -
  let ?s2 = "self \<lparr> stats := (stats self) \<lparr> start_time := time_at_start w \<rparr>,
                   requested := requested self @ map (build_url self) (wordlist self) \<rparr>"
  have "found (stats ?s2) = length (results ?s2)" using assms by simp
  then have inv: "found (stats (snd (process_completed n ?s2 0 fs)))
                  = length (results (snd (process_completed n ?s2 0 fs)))" for n fs
    by (rule process_completed_invariant)
  show ?thesis
    using assms inv
    by (simp add: scan_def ThreadPoolExecutor_def Let_def split: option.splits)
qed

lemma scan_returns_results: "fst (scan w self) = Inr rs \<Longrightarrow> rs = results (snd (scan w self))"
  by (auto simp: scan_def ThreadPoolExecutor_def Let_def split: if_splits option.splits)

lemma scan_errors_unchanged:
  assumes "\<forall>fs. mset (as_completed w fs) = mset fs"
  shows "errors (stats (snd (scan w self))) = errors (stats self)"
proof (cases "0 < threads self")
  case False
  then show ?thesis by (simp add: scan_refused)
next
  case True
  show ?thesis
  proof (cases "wordlist self = []")
    case e: True
    have "mset (as_completed w []) = mset []" using assms by blast
    then have "as_completed w [] = []" by simp
    then show ?thesis
      using True e
      by (simp add: scan_def ThreadPoolExecutor_def Let_def progress_print_def submit_all_def)
  next
    case False
    let ?fs = "submit_all w (map (build_url self) (wordlist self))"
    have "raised (as_completed w ?fs) = raised ?fs"
      using assms by (simp add: raised_count)
    then show ?thesis
      using True False
      by (simp add: scan_completes process_completed_errors raised_submit_all)
  qed
qed

text \<open>
  C8. After a completed run of a freshly constructed scanner over the candidate list
  \<open>P\<close>, with every future handed back exactly once, the total in the statistics is
  \<open>len(P)\<close>; and inside the loop the total is \<open>n\<close> after the \<open>n\<close>-th future has been
  taken, whatever that future holds: one update per request, made after its result.
\<close>

theorem C8_total_equals_number_of_candidates:
  assumes perm: "\<forall>fs. mset (as_completed w fs) = mset fs"
      and compl: "fst (scan w (DirectoryScanner b P t)) = Inr rs"
  shows "total (stats (snd (scan w (DirectoryScanner b P t)))) = length P
       \<and> (\<forall>n m. 0 < m \<longrightarrow> 0 < n \<longrightarrow> n \<le> length fs \<longrightarrow>
             total (stats (snd (process_completed m self 0 (take n fs)))) = n)"
proof -
  let ?sc = "DirectoryScanner b P t"
  have ok: "0 < threads ?sc \<and> wordlist ?sc \<noteq> []"
    using compl scan_Inr_iff[of w ?sc] by auto
  then have pos: "0 < threads ?sc" and ne: "wordlist ?sc \<noteq> []" by simp_all
  let ?fs = "as_completed w (submit_all w (map (build_url ?sc) (wordlist ?sc)))"
  have len: "length ?fs = length P"
  proof -
    have "size (mset ?fs) = size (mset (submit_all w (map (build_url ?sc) (wordlist ?sc))))"
      using perm by simp
    then show ?thesis by (simp add: length_submit_all DirectoryScanner_def)
  qed
  have wl: "wordlist ?sc = P" by (simp add: DirectoryScanner_def)
  have "?fs \<noteq> []" using len ne wl by auto
  then have first: "total (stats (snd (scan w ?sc))) = length P"
    using len ne wl by (simp add: scan_completes[OF pos ne] process_completed_total)
  have second: "total (stats (snd (process_completed m self 0 (take n fs)))) = n"
    if "0 < m" "0 < n" "n \<le> length fs" for n m
  proof -
    have "take n fs \<noteq> []" using that by auto
    then show ?thesis using that by (simp add: process_completed_total)
  qed
  show ?thesis using first second by blast
qed

theorem C8_total_equals_number_of_candidates_witness:
  "fst (scan (stub_env (\<lambda>i u. Raises)) (DirectoryScanner ''http://target'' [''admin'', ''login''] 50)) = Inr []
   \<and> total (stats (snd (scan (stub_env (\<lambda>i u. Raises))
                           (DirectoryScanner ''http://target'' [''admin'', ''login''] 50)))) = 2
   \<and> total (stats (snd (process_completed 2 (DirectoryScanner ''http://target'' [''admin'', ''login''] 50) 0
                           (take 1 [(''http://target/admin'', Raised), (''http://target/login'', Returned None)])))) = 1"
proof -
  have h1: "\<forall>fs. mset (as_completed (stub_env (\<lambda>i u. Raises)) fs) = mset fs"
    by (simp add: stub_env_def)
  have h2: "fst (scan (stub_env (\<lambda>i u. Raises))
                   (DirectoryScanner ''http://target'' [''admin'', ''login''] 50)) = Inr []"
    by code_simp
  note t = C8_total_equals_number_of_candidates [OF h1 h2,
            of "[(''http://target/admin'', Raised), (''http://target/login'', Returned None)]"
               "DirectoryScanner ''http://target'' [''admin'', ''login''] 50"]
  have a: "total (stats (snd (scan (stub_env (\<lambda>i u. Raises))
                           (DirectoryScanner ''http://target'' [''admin'', ''login''] 50)))) = 2"
    using t [THEN conjunct1] by simp
  have b: "total (stats (snd (process_completed 2 (DirectoryScanner ''http://target'' [''admin'', ''login''] 50) 0
                           (take 1 [(''http://target/admin'', Raised), (''http://target/login'', Returned None)])))) = 1"
    using t [THEN conjunct2, rule_format, of 2 1] by simp
  show ?thesis using h2 a b by blast
qed

text \<open>
  C10. The \<open>found\<close> counter equals the length of the results list: if it does when
  the loop starts (as in a freshly constructed scanner), it does after any number of
  loop iterations and in the state a scan leaves behind, and the list a completed scan
  returns has exactly \<open>found\<close> entries.
\<close>

theorem C10_found_equals_number_of_results:
  assumes inv: "found (stats self) = length (results self)"
  shows "found (stats (snd (process_completed n self k fs)))
           = length (results (snd (process_completed n self k fs)))
       \<and> found (stats (snd (scan w self))) = length (results (snd (scan w self)))
       \<and> (\<forall>rs. fst (scan w self) = Inr rs \<longrightarrow> length rs = found (stats (snd (scan w self))))"
proof -
  have loop: "found (stats (snd (process_completed n self k fs)))
                = length (results (snd (process_completed n self k fs)))"
    using inv by (rule process_completed_invariant)
  have final: "found (stats (snd (scan w self))) = length (results (snd (scan w self)))"
    using inv by (rule scan_invariant)
  have ret: "length rs = found (stats (snd (scan w self)))" if "fst (scan w self) = Inr rs" for rs
    using scan_returns_results[OF that] final by simp
  show ?thesis using loop final ret by blast
qed

theorem C10_found_equals_number_of_results_witness:
  "found (stats (DirectoryScanner ''http://target'' [''admin''] 50))
     = length (results (DirectoryScanner ''http://target'' [''admin''] 50))
   \<and> found (stats (snd (scan (stub_env (\<lambda>i u. Returns (Some \<lparr> status_code = 200, content = ''ok'',
             body_text = ''ok'', headers = [], elapsed = 0 \<rparr>)))
           (DirectoryScanner ''http://target'' [''admin''] 50)))) = 1
   \<and> length (results (snd (scan (stub_env (\<lambda>i u. Returns (Some \<lparr> status_code = 200, content = ''ok'',
             body_text = ''ok'', headers = [], elapsed = 0 \<rparr>)))
           (DirectoryScanner ''http://target'' [''admin''] 50)))) = 1"
proof -
  let ?sc = "DirectoryScanner ''http://target'' [''admin''] 50"
  let ?w = "stub_env (\<lambda>i u. Returns (Some \<lparr> status_code = 200, content = ''ok'',
             body_text = ''ok'', headers = [], elapsed = 0 \<rparr>))"
  have h: "found (stats ?sc) = length (results ?sc)"
    by (simp add: DirectoryScanner_def)
  have n: "length (results (snd (scan ?w ?sc))) = 1"
    by code_simp
  show ?thesis
    using h n C10_found_equals_number_of_results [OF h, of 1 0 "[]" ?w] by simp
qed

text \<open>
  C3 at a concrete run: two candidates, and the client raises on every request. The
  run completes and both candidates are absent from the results, but the error
  counter is still 0: the worker swallows the exception, so the branch of the loop
  that counts errors is never taken.
\<close>

theorem C3_failed_requests_are_not_counted:
  "fst (scan (stub_env (\<lambda>i u. Raises)) (DirectoryScanner ''http://target'' [''admin'', ''login''] 50)) = Inr []
   \<and> errors (stats (snd (scan (stub_env (\<lambda>i u. Raises))
                           (DirectoryScanner ''http://target'' [''admin'', ''login''] 50)))) = 0
   \<and> total (stats (snd (scan (stub_env (\<lambda>i u. Raises))
                           (DirectoryScanner ''http://target'' [''admin'', ''login''] 50)))) = 2
   \<and> requested (snd (scan (stub_env (\<lambda>i u. Raises))
                           (DirectoryScanner ''http://target'' [''admin'', ''login''] 50)))
       = [''http://target/admin'', ''http://target/login'']"
  by code_simp




subsection \<open>The injection probe coordinator and its strategies\<close>














lemma boolean_param_found:
  "f \<in> set (fst (boolean_param w url b p sent)) \<Longrightarrow>
     subtype f = BooleanBased \<and> parameter f = p \<and> confidence f = High"
  by (auto simp: boolean_param_def send_def Let_def split: outcome.splits option.splits if_splits)


lemma boolean_params_loop_found:
  "f \<in> set (fst (boolean_params_loop w url b names sent)) \<Longrightarrow>
     subtype f = BooleanBased \<and> confidence f = High"
proof (induction names arbitrary: sent)
  case Nil
  then show ?case by simp
next
  case (Cons p names)
  then show ?case
    by (auto simp: Let_def split_beta dest: boolean_param_found)
qed












text \<open>
  C5. Two responses differ significantly exactly when their lengths differ by more
  than 100, or one is within 50 of the baseline length while the other is more than
  200 away from it, or their status codes differ (with "within 50" read as less than
  50, as the source has it, or as at most 50: the first test covers the difference).
  For a parameter whose two requests return responses, a finding is reported exactly
  when they differ significantly; every finding of the strategy has confidence High.
  Lengths 1005 and 1300 against a baseline of 1000 differ significantly.
\<close>

theorem C5_boolean_differential:
  "(responses_differ_significantly t f b \<longleftrightarrow>
       \<bar>int (length (body_text t)) - int (length (body_text f))\<bar> > 100
     \<or> (\<bar>int (length (body_text t)) - int (length (body_text b))\<bar> < 50
          \<and> \<bar>int (length (body_text f)) - int (length (body_text b))\<bar> > 200)
     \<or> (\<bar>int (length (body_text f)) - int (length (body_text b))\<bar> < 50
          \<and> \<bar>int (length (body_text t)) - int (length (body_text b))\<bar> > 200)
     \<or> status_code t \<noteq> status_code f)
   \<and> (responses_differ_significantly t f b \<longleftrightarrow>
       \<bar>int (length (body_text t)) - int (length (body_text f))\<bar> > 100
     \<or> (\<bar>int (length (body_text t)) - int (length (body_text b))\<bar> \<le> 50
          \<and> \<bar>int (length (body_text f)) - int (length (body_text b))\<bar> > 200)
     \<or> (\<bar>int (length (body_text f)) - int (length (body_text b))\<bar> \<le> 50
          \<and> \<bar>int (length (body_text t)) - int (length (body_text b))\<bar> > 200)
     \<or> status_code t \<noteq> status_code f)
   \<and> (get w (map (\<lambda>r. snd (snd r)) sent) (build_test_url w url p true_payload_str)
          = (Returns (Some t), x) \<longrightarrow>
        get w (map (\<lambda>r. snd (snd r)) sent @ [build_test_url w url p true_payload_str])
              (build_test_url w url p false_payload_str) = (Returns (Some f), y) \<longrightarrow>
        (fst (boolean_param w url b p sent) \<noteq> [] \<longleftrightarrow> responses_differ_significantly t f b))
   \<and> (\<forall>v \<in> set (fst (test_boolean_based w url b sent)). subtype v = BooleanBased \<and> confidence v = High)
   \<and> responses_differ_significantly (stub_response 1005) (stub_response 1300) (stub_response 1000)"
proof -
  have a: "responses_differ_significantly t f b \<longleftrightarrow>
       \<bar>int (length (body_text t)) - int (length (body_text f))\<bar> > 100
     \<or> (\<bar>int (length (body_text t)) - int (length (body_text b))\<bar> < 50
          \<and> \<bar>int (length (body_text f)) - int (length (body_text b))\<bar> > 200)
     \<or> (\<bar>int (length (body_text f)) - int (length (body_text b))\<bar> < 50
          \<and> \<bar>int (length (body_text t)) - int (length (body_text b))\<bar> > 200)
     \<or> status_code t \<noteq> status_code f"
    by (simp add: responses_differ_significantly_def Let_def)
  have a': "responses_differ_significantly t f b \<longleftrightarrow>
       \<bar>int (length (body_text t)) - int (length (body_text f))\<bar> > 100
     \<or> (\<bar>int (length (body_text t)) - int (length (body_text b))\<bar> \<le> 50
          \<and> \<bar>int (length (body_text f)) - int (length (body_text b))\<bar> > 200)
     \<or> (\<bar>int (length (body_text f)) - int (length (body_text b))\<bar> \<le> 50
          \<and> \<bar>int (length (body_text t)) - int (length (body_text b))\<bar> > 200)
     \<or> status_code t \<noteq> status_code f"
    unfolding a by linarith
  have c: "fst (boolean_param w url b p sent) \<noteq> [] \<longleftrightarrow> responses_differ_significantly t f b"
    if "get w (map (\<lambda>r. snd (snd r)) sent) (build_test_url w url p true_payload_str)
          = (Returns (Some t), x)"
       "get w (map (\<lambda>r. snd (snd r)) sent @ [build_test_url w url p true_payload_str])
              (build_test_url w url p false_payload_str) = (Returns (Some f), y)"
    using that by (simp add: boolean_param_def send_def Let_def)
  have d: "\<forall>v \<in> set (fst (test_boolean_based w url b sent)). subtype v = BooleanBased \<and> confidence v = High"
    using boolean_params_loop_found by (auto simp: test_boolean_based_def)
  have e: "responses_differ_significantly (stub_response 1005) (stub_response 1300) (stub_response 1000)"
    by (simp add: responses_differ_significantly_def stub_response_def Let_def)
  show ?thesis using a a' c d e by blast
qed

theorem C5_boolean_differential_witness:
  "map confidence (fst (test_boolean_based (stub_sqli_env (\<lambda>t. None)) ''http://t/?id=1'' (stub_response 1000) []))
     = [High]
   \<and> fst (boolean_param (stub_sqli_env (\<lambda>t. None)) ''http://t/?id=1'' (stub_response 1000) ''id'' []) \<noteq> []"
proof -
  let ?w = "stub_sqli_env (\<lambda>t. None)"
  let ?url = "''http://t/?id=1''"
  note inst = C5_boolean_differential [of "stub_response 1005" "stub_response 1300" "stub_response 1000"
                ?w "[]" ?url "''id''" "1 / 10" "1 / 10"]
  have run: "map confidence (fst (test_boolean_based ?w ?url (stub_response 1000) [])) = [High]"
    by code_simp
  have h1: "get ?w (map (\<lambda>r. snd (snd r)) []) (build_test_url ?w ?url ''id'' true_payload_str)
          = (Returns (Some (stub_response 1005)), 1 / 10)"
    by (simp add: stub_sqli_env_def true_payload_str_def)
  have h2: "get ?w (map (\<lambda>r. snd (snd r)) [] @ [build_test_url ?w ?url ''id'' true_payload_str])
              (build_test_url ?w ?url ''id'' false_payload_str) = (Returns (Some (stub_response 1300)), 1 / 10)"
    by (simp add: stub_sqli_env_def true_payload_str_def false_payload_str_def)
  have "fst (boolean_param ?w ?url (stub_response 1000) ''id'' []) \<noteq> []"
    using inst h1 h2 by blast
  then show ?thesis using run by blast
qed

subsection \<open>Reflection of a payload\<close>



subsection \<open>Building the probe URL\<close>

lemma split_nonempty [simp]: "split c s \<noteq> []"
  by (induction s) (auto split: list.splits)







































end
